theory Spec2Isabelle
  imports Main "HOL-Library.Multiset" "HOL-Library.Sublist"
begin

section \<open>Data model of taskOrganizer.ts\<close>

text \<open>
  The module reads three fields of a host task descriptor: \<^verbatim>\<open>name\<close>, \<^verbatim>\<open>source\<close> and
  \<^verbatim>\<open>group\<close>. Every other field of \<^verbatim>\<open>vscode.Task\<close> (definition, scope, execution, ...) is
  carried along untouched; it lives in the extension part of the record, so all functions
  below are stated over \<open>'a Task_scheme\<close>.

  \<^item> \<^verbatim>\<open>source\<close> is \<open>None\<close> when the field is absent (\<^verbatim>\<open>undefined\<close>), \<open>Some s\<close> otherwise; \<open>Some []\<close> is
    the present, empty string.
  \<^item> \<^verbatim>\<open>group\<close> is absent, a plain string, or a structured value with an optional \<^verbatim>\<open>id\<close>.
\<close>

datatype GroupField = PlainGroup string | StructuredGroup "string option"

record Task =
  name :: string
  source :: "string option"
  group :: "GroupField option"

text \<open>An execution descriptor refers to the task it runs (\<^verbatim>\<open>execution.task\<close>).\<close>

record 'a TaskExecution =
  task :: "'a Task_scheme"

text \<open>\<^verbatim>\<open>interface TaskGroup { tasks: vscode.Task[]; subGroups: Record<string, vscode.Task[]> }\<close>\<close>

record 'a TaskGroup =
  tasks :: "'a Task_scheme list"
  subGroups :: "string \<rightharpoonup> 'a Task_scheme list"

text \<open>\<^verbatim>\<open>interface OrganizedTasks { workspaceTasks: vscode.Task[]; sourceGroups: Record<string, TaskGroup> }\<close>\<close>

record 'a OrganizedTasks =
  workspaceTasks :: "'a Task_scheme list"
  sourceGroups :: "string \<rightharpoonup> 'a TaskGroup"

text \<open>\<^verbatim>\<open>type TaskStatus = 'grey' | 'green' | 'yellow' | 'red'\<close>\<close>

datatype TaskStatus = grey | green | yellow | red

type_synonym TaskStatusMap = "string \<rightharpoonup> TaskStatus"

section \<open>JavaScript objects used as dictionaries\<close>

text \<open>
  Both \<^verbatim>\<open>Record<string, _>\<close> values of the module are created by the object literal \<^verbatim>\<open>{}\<close>, so
  their prototype is \<^verbatim>\<open>Object.prototype\<close>. A map \<open>string \<rightharpoonup> 'v\<close> holds the own properties.
  Reading \<^verbatim>\<open>obj[k]\<close> consults the own properties first and the prototype next, so for a key
  that names a member of \<^verbatim>\<open>Object.prototype\<close> the read yields that member (a function, or for
  \<^verbatim>\<open>__proto__\<close> the prototype object itself), which is truthy and is none of the values the
  module stored. The member names are those of the ECMAScript standard library as
  implemented by the extension host (Node.js).
\<close>

definition objectPrototypeKeys :: "string list" where
  "objectPrototypeKeys =
     [''constructor'', ''hasOwnProperty'', ''isPrototypeOf'', ''propertyIsEnumerable'',
      ''toLocaleString'', ''toString'', ''valueOf'', ''__proto__'',
      ''__defineGetter__'', ''__defineSetter__'', ''__lookupGetter__'', ''__lookupSetter__'']"

datatype 'v property = Own 'v | Inherited | Undefined

definition getProperty :: "(string \<rightharpoonup> 'v) \<Rightarrow> string \<Rightarrow> 'v property" where
  "getProperty obj k =
     (case obj k of
        Some v \<Rightarrow> Own v
      | None \<Rightarrow> if k \<in> set objectPrototypeKeys then Inherited else Undefined)"

text \<open>
  Writing \<^verbatim>\<open>obj[k] = v\<close> with a string \<open>v\<close> creates or overwrites the own property \<open>k\<close>,
  except for \<^verbatim>\<open>__proto__\<close>: that key is an accessor of \<^verbatim>\<open>Object.prototype\<close> whose setter
  ignores every value that is neither an object nor null, so nothing is stored.
\<close>

definition setProperty :: "(string \<rightharpoonup> 'v) \<Rightarrow> string \<Rightarrow> 'v \<Rightarrow> (string \<rightharpoonup> 'v)" where
  "setProperty obj k v = (if k = ''__proto__'' then obj else obj(k \<mapsto> v))"

text \<open>The only failure of the module: reading a property of \<^verbatim>\<open>undefined\<close>, or calling it.\<close>

datatype jsError = TypeError

section \<open>The classifier\<close>

text \<open>
  \<^verbatim>\<open>return task.source === 'Workspace' || !task.source;\<close>
  \<^verbatim>\<open>!task.source\<close> holds for an absent source and for the empty string.
\<close>

definition isWorkspaceTask :: "'a Task_scheme \<Rightarrow> bool" where
  "isWorkspaceTask t =
     (source t = Some ''Workspace'' \<or> (case source t of None \<Rightarrow> True | Some s \<Rightarrow> s = []))"

text \<open>
  \<^verbatim>\<open>if (!task.group) return null;\<close>
  \<^verbatim>\<open>if (typeof task.group === 'string') return task.group;\<close>
  \<^verbatim>\<open>return task.group.id || 'build';\<close>
  An absent group and the empty string are falsy; a structured value is an object and
  always truthy.
\<close>

definition extractTaskGroupName :: "'a Task_scheme \<Rightarrow> string option" where
  "extractTaskGroupName t =
     (case group t of
        None \<Rightarrow> None
      | Some (PlainGroup s) \<Rightarrow> if s = [] then None else Some s
      | Some (StructuredGroup i) \<Rightarrow>
          (case i of
             None \<Rightarrow> Some ''build''
           | Some s \<Rightarrow> if s = [] then Some ''build'' else Some s))"

text \<open>\<^verbatim>\<open>const source = task.source || 'Unknown';\<close>\<close>

definition providerSource :: "'a Task_scheme \<Rightarrow> string" where
  "providerSource t =
     (case source t of None \<Rightarrow> ''Unknown'' | Some s \<Rightarrow> if s = [] then ''Unknown'' else s)"

text \<open>
  \<^verbatim>\<open>if (!sourceGroups[source]) { sourceGroups[source] = { tasks: [], subGroups: {} }; }\<close>
  The entry is created only when the read yields \<^verbatim>\<open>undefined\<close>; an inherited member is
  truthy and leaves the object unchanged. A key whose read is \<^verbatim>\<open>undefined\<close> is no member
  name, so the write creates an own property; the same holds for the subgroup lists below.
\<close>

definition initSourceGroup :: "string \<Rightarrow> (string \<rightharpoonup> 'a TaskGroup) \<Rightarrow> (string \<rightharpoonup> 'a TaskGroup)" where
  "initSourceGroup src sg =
     (case getProperty sg src of
        Undefined \<Rightarrow> sg(src \<mapsto> \<lparr>tasks = [], subGroups = Map.empty\<rparr>)
      | Own g \<Rightarrow> sg
      | Inherited \<Rightarrow> sg)"

text \<open>
  \<^verbatim>\<open>if (!sourceGroups[source].subGroups[taskGroupName]) { ...subGroups[taskGroupName] = []; }\<close>
  \<^verbatim>\<open>sourceGroups[source].subGroups[taskGroupName].push(task);\<close>
  When \<^verbatim>\<open>sourceGroups[source]\<close> is an inherited member its \<^verbatim>\<open>subGroups\<close> is \<^verbatim>\<open>undefined\<close> and the
  index throws. When the subgroup read yields an inherited member no list is created and
  \<^verbatim>\<open>.push\<close> is \<^verbatim>\<open>undefined\<close>, so the call throws.
\<close>

definition pushSubGroup ::
  "'a Task_scheme \<Rightarrow> string \<Rightarrow> string \<Rightarrow> (string \<rightharpoonup> 'a TaskGroup) \<Rightarrow> jsError + (string \<rightharpoonup> 'a TaskGroup)" where
  "pushSubGroup t src k sg =
     (case getProperty sg src of
        Own g \<Rightarrow>
          (case getProperty (subGroups g) k of
             Undefined \<Rightarrow> Inr (sg(src \<mapsto> g\<lparr>subGroups := (subGroups g)(k \<mapsto> [] @ [t])\<rparr>))
           | Own l \<Rightarrow> Inr (sg(src \<mapsto> g\<lparr>subGroups := (subGroups g)(k \<mapsto> l @ [t])\<rparr>))
           | Inherited \<Rightarrow> Inl TypeError)
      | Inherited \<Rightarrow> Inl TypeError
      | Undefined \<Rightarrow> Inl TypeError)"

text \<open>
  \<^verbatim>\<open>sourceGroups[source].tasks.push(task);\<close>
  An inherited member has no \<^verbatim>\<open>tasks\<close>, so \<^verbatim>\<open>.push\<close> is read from \<^verbatim>\<open>undefined\<close> and throws.
\<close>

definition pushDirect ::
  "'a Task_scheme \<Rightarrow> string \<Rightarrow> (string \<rightharpoonup> 'a TaskGroup) \<Rightarrow> jsError + (string \<rightharpoonup> 'a TaskGroup)" where
  "pushDirect t src sg =
     (case getProperty sg src of
        Own g \<Rightarrow> Inr (sg(src \<mapsto> g\<lparr>tasks := tasks g @ [t]\<rparr>))
      | Inherited \<Rightarrow> Inl TypeError
      | Undefined \<Rightarrow> Inl TypeError)"

text \<open>
  \<^verbatim>\<open>function organizeProviderTask(task, sourceGroups): void\<close> mutates \<^verbatim>\<open>sourceGroups\<close>; the
  model returns the updated object, or the error thrown. \<^verbatim>\<open>if (taskGroupName)\<close> is false
  for \<^verbatim>\<open>null\<close> and for the empty string.
\<close>

definition organizeProviderTask ::
  "'a Task_scheme \<Rightarrow> (string \<rightharpoonup> 'a TaskGroup) \<Rightarrow> jsError + (string \<rightharpoonup> 'a TaskGroup)" where
  "organizeProviderTask t sourceGroups0 =
     (let src = providerSource t;
          sg = initSourceGroup src sourceGroups0
      in case extractTaskGroupName t of
           None \<Rightarrow> pushDirect t src sg
         | Some k \<Rightarrow> if k = [] then pushDirect t src sg else pushSubGroup t src k sg)"

text \<open>
  The body of \<^verbatim>\<open>tasks.forEach(task => { ... })\<close> in \<^verbatim>\<open>organizeTasks\<close>, run over the list with
  the two accumulators \<^verbatim>\<open>workspaceTasks\<close> and \<^verbatim>\<open>sourceGroups\<close>; an exception leaves the loop
  and the function.
\<close>

fun organizeLoop :: "'a Task_scheme list \<Rightarrow> 'a OrganizedTasks \<Rightarrow> jsError + 'a OrganizedTasks" where
  "organizeLoop [] acc = Inr acc"
| "organizeLoop (t # ts) acc =
     (if isWorkspaceTask t then
        organizeLoop ts (acc\<lparr>workspaceTasks := workspaceTasks acc @ [t]\<rparr>)
      else
        (case organizeProviderTask t (sourceGroups acc) of
           Inl e \<Rightarrow> Inl e
         | Inr sg \<Rightarrow> organizeLoop ts (acc\<lparr>sourceGroups := sg\<rparr>)))"

definition organizeTasks :: "'a Task_scheme list \<Rightarrow> jsError + 'a OrganizedTasks" where
  "organizeTasks ts = organizeLoop ts \<lparr>workspaceTasks = [], sourceGroups = Map.empty\<rparr>"

section \<open>The status deriver\<close>

text \<open>
  \<^verbatim>\<open>const isRunning = executions.some(execution => execution.task.name === task.name);\<close>
\<close>

definition isRunning :: "'b TaskExecution list \<Rightarrow> 'a Task_scheme \<Rightarrow> bool" where
  "isRunning executions t = list_ex (\<lambda>execution. name (task execution) = name t) executions"

text \<open>
  \<^verbatim>\<open>tasks.forEach(task => { taskStatuses[task.name] = isRunning ? 'yellow' : 'grey'; });\<close>
  starting from \<^verbatim>\<open>const taskStatuses: TaskStatusMap = {};\<close>
\<close>

definition createTaskStatuses :: "'a Task_scheme list \<Rightarrow> 'b TaskExecution list \<Rightarrow> TaskStatusMap" where
  "createTaskStatuses ts executions =
     foldl (\<lambda>taskStatuses t.
              setProperty taskStatuses (name t) (if isRunning executions t then yellow else grey))
           Map.empty ts"

section \<open>Observations on the organized result\<close>

text \<open>
  Total read-outs of the nested mapping, used to state the loop invariants: the direct
  list of a source, the list of a subgroup of a source, and the subgroup keys of a
  source. A missing entry reads as the empty list or the empty key set. \<open>groupOf\<close> is the
  group object the body of \<^verbatim>\<open>organizeProviderTask\<close> works on after the lazy creation.
\<close>

definition directTasks :: "(string \<rightharpoonup> 'a TaskGroup) \<Rightarrow> string \<Rightarrow> 'a Task_scheme list" where
  "directTasks sg s = (case sg s of None \<Rightarrow> [] | Some g \<Rightarrow> tasks g)"

definition subGroupTasks :: "(string \<rightharpoonup> 'a TaskGroup) \<Rightarrow> string \<Rightarrow> string \<Rightarrow> 'a Task_scheme list" where
  "subGroupTasks sg s k =
     (case sg s of None \<Rightarrow> [] | Some g \<Rightarrow> (case subGroups g k of None \<Rightarrow> [] | Some l \<Rightarrow> l))"

definition subGroupKeys :: "(string \<rightharpoonup> 'a TaskGroup) \<Rightarrow> string \<Rightarrow> string set" where
  "subGroupKeys sg s = (case sg s of None \<Rightarrow> {} | Some g \<Rightarrow> dom (subGroups g))"

definition groupOf :: "(string \<rightharpoonup> 'a TaskGroup) \<Rightarrow> string \<Rightarrow> 'a TaskGroup" where
  "groupOf sg s = (case sg s of None \<Rightarrow> \<lparr>tasks = [], subGroups = Map.empty\<rparr> | Some g \<Rightarrow> g)"

text \<open>
  The content of an organized result as a multiset, and its size: the workspace list plus,
  for every source key, the direct list plus every subgroup list.
\<close>

definition groupBag :: "'a TaskGroup \<Rightarrow> 'a Task_scheme multiset" where
  "groupBag g = mset (tasks g) + (\<Sum>k\<in>dom (subGroups g). mset (the (subGroups g k)))"

definition organizedBag :: "'a OrganizedTasks \<Rightarrow> 'a Task_scheme multiset" where
  "organizedBag r =
     mset (workspaceTasks r) + (\<Sum>s\<in>dom (sourceGroups r). groupBag (the (sourceGroups r s)))"

definition groupSize :: "'a TaskGroup \<Rightarrow> nat" where
  "groupSize g = length (tasks g) + (\<Sum>k\<in>dom (subGroups g). length (the (subGroups g k)))"

definition organizedSize :: "'a OrganizedTasks \<Rightarrow> nat" where
  "organizedSize r =
     length (workspaceTasks r) + (\<Sum>s\<in>dom (sourceGroups r). groupSize (the (sourceGroups r s)))"

section \<open>Example snapshots\<close>

text \<open>
  Concrete task descriptors for the evaluated examples: a workspace task without source,
  four tasks of the provider \<^verbatim>\<open>npm\<close> (two of them in the group \<^verbatim>\<open>test\<close>), tasks whose source
  is \<^verbatim>\<open>Workspace\<close>, \<^verbatim>\<open>workspace\<close> or the empty string, tasks whose group is the empty string, a
  structured value with an empty, a missing or a proper \<^verbatim>\<open>id\<close>, and tasks whose source
  or name is a member name of \<^verbatim>\<open>Object.prototype\<close>.
\<close>

abbreviation (input) devTask :: Task where
  "devTask \<equiv> \<lparr>name = ''dev'', source = None, group = None\<rparr>"
abbreviation (input) lintTask :: Task where
  "lintTask \<equiv> \<lparr>name = ''lint'', source = Some ''npm'', group = Some (PlainGroup ''test'')\<rparr>"
abbreviation (input) compileTask :: Task where
  "compileTask \<equiv> \<lparr>name = ''compile'', source = Some ''npm'', group = None\<rparr>"
abbreviation (input) unitTask :: Task where
  "unitTask \<equiv> \<lparr>name = ''unit'', source = Some ''npm'', group = Some (PlainGroup ''test'')\<rparr>"
abbreviation (input) packTask :: Task where
  "packTask \<equiv> \<lparr>name = ''pack'', source = Some ''npm'', group = None\<rparr>"
abbreviation (input) workspaceTask :: Task where
  "workspaceTask \<equiv> \<lparr>name = ''build'', source = Some ''Workspace'', group = None\<rparr>"
abbreviation (input) lowerTask :: Task where
  "lowerTask \<equiv> \<lparr>name = ''watch'', source = Some ''workspace'', group = None\<rparr>"
abbreviation (input) emptySourceTask :: Task where
  "emptySourceTask \<equiv> \<lparr>name = ''serve'', source = Some [], group = None\<rparr>"
abbreviation (input) emptyGroupTask :: Task where
  "emptyGroupTask \<equiv> \<lparr>name = ''fmt'', source = Some ''npm'', group = Some (PlainGroup [])\<rparr>"
abbreviation (input) emptyIdTask :: Task where
  "emptyIdTask \<equiv> \<lparr>name = ''bundle'', source = Some ''npm'', group = Some (StructuredGroup (Some []))\<rparr>"
abbreviation (input) noIdTask :: Task where
  "noIdTask \<equiv> \<lparr>name = ''make'', source = Some ''npm'', group = Some (StructuredGroup None)\<rparr>"
abbreviation (input) cleanTask :: Task where
  "cleanTask \<equiv> \<lparr>name = ''wipe'', source = Some ''npm'', group = Some (StructuredGroup (Some ''clean''))\<rparr>"
abbreviation (input) constructorTask :: Task where
  "constructorTask \<equiv> \<lparr>name = ''gen'', source = Some ''constructor'', group = None\<rparr>"
abbreviation (input) valueOfTask :: Task where
  "valueOfTask \<equiv> \<lparr>name = ''check'', source = Some ''valueOf'', group = None\<rparr>"
abbreviation (input) toStringEmptyGroupTask :: Task where
  "toStringEmptyGroupTask \<equiv>
     \<lparr>name = ''print'', source = Some ''toString'', group = Some (PlainGroup [])\<rparr>"
abbreviation (input) toStringEmptyIdTask :: Task where
  "toStringEmptyIdTask \<equiv>
     \<lparr>name = ''dump'', source = Some ''toString'', group = Some (StructuredGroup (Some []))\<rparr>"
abbreviation (input) protoTask :: Task where
  "protoTask \<equiv> \<lparr>name = ''__proto__'', source = None, group = None\<rparr>"

section \<open>One call of organizeProviderTask\<close>

text \<open>The definitions a concrete run of the classifier unfolds.\<close>

lemmas organize_eval =
  organizeTasks_def isWorkspaceTask_def organizeProviderTask_def providerSource_def
  initSourceGroup_def getProperty_def objectPrototypeKeys_def extractTaskGroupName_def
  pushDirect_def pushSubGroup_def Let_def

lemma extractTaskGroupName_nonempty: "extractTaskGroupName t \<noteq> Some []"
  by (simp add: extractTaskGroupName_def split: option.splits GroupField.splits)

lemma getProperty_initSourceGroup:
  "getProperty (initSourceGroup src sg) src =
     (case sg src of
        Some g \<Rightarrow> Own g
      | None \<Rightarrow> if src \<in> set objectPrototypeKeys then Inherited
                else Own \<lparr>tasks = [], subGroups = Map.empty\<rparr>)"
  by (simp add: initSourceGroup_def getProperty_def split: option.splits)

lemma initSourceGroup_upd:
  "(initSourceGroup src sg)(src \<mapsto> g) = sg(src \<mapsto> g)"
  by (simp add: initSourceGroup_def getProperty_def split: option.splits)

lemma pushDirect_Inr:
  "pushDirect t src sg = Inr sg' \<longleftrightarrow>
     (\<exists>g. getProperty sg src = Own g \<and> sg' = sg(src \<mapsto> g\<lparr>tasks := tasks g @ [t]\<rparr>))"
  by (auto simp: pushDirect_def split: property.splits)

lemma pushSubGroup_Inr:
  "pushSubGroup t src k sg = Inr sg' \<longleftrightarrow>
     (\<exists>g. getProperty sg src = Own g \<and> getProperty (subGroups g) k \<noteq> Inherited \<and>
          sg' = sg(src \<mapsto> g\<lparr>subGroups := (subGroups g)
                  (k \<mapsto> (case subGroups g k of None \<Rightarrow> [] | Some l \<Rightarrow> l) @ [t])\<rparr>))"
  by (auto simp: pushSubGroup_def getProperty_def split: property.splits option.splits if_splits)

lemma organizeProviderTask_result:
  assumes "organizeProviderTask t sg = Inr sg'"
  shows "sg' = sg(providerSource t \<mapsto>
                (case extractTaskGroupName t of
                   None \<Rightarrow> (groupOf sg (providerSource t))
                              \<lparr>tasks := tasks (groupOf sg (providerSource t)) @ [t]\<rparr>
                 | Some k \<Rightarrow> (groupOf sg (providerSource t))
                              \<lparr>subGroups := (subGroups (groupOf sg (providerSource t)))
                                 (k \<mapsto> (case subGroups (groupOf sg (providerSource t)) k of
                                           None \<Rightarrow> [] | Some l \<Rightarrow> l) @ [t])\<rparr>))"
proof (cases "extractTaskGroupName t")
  case None
  with assms have "pushDirect t (providerSource t) (initSourceGroup (providerSource t) sg) = Inr sg'"
    by (simp add: organizeProviderTask_def Let_def)
  then show ?thesis using None
    by (auto simp: pushDirect_Inr getProperty_initSourceGroup initSourceGroup_upd groupOf_def
             split: option.splits if_splits)
next
  case (Some k)
  with extractTaskGroupName_nonempty [of t] have "k \<noteq> []" by auto
  with assms Some have "pushSubGroup t (providerSource t) k (initSourceGroup (providerSource t) sg) = Inr sg'"
    by (simp add: organizeProviderTask_def Let_def)
  then show ?thesis using Some
    by (auto simp: pushSubGroup_Inr getProperty_initSourceGroup initSourceGroup_upd groupOf_def
             split: option.splits if_splits)
qed

lemma organizeProviderTask_dom:
  "organizeProviderTask t sg = Inr sg' \<Longrightarrow> dom sg' = insert (providerSource t) (dom sg)"
  by (drule organizeProviderTask_result) simp

lemma organizeProviderTask_direct:
  "organizeProviderTask t sg = Inr sg' \<Longrightarrow>
   directTasks sg' s =
     directTasks sg s @ (if s = providerSource t \<and> extractTaskGroupName t = None then [t] else [])"
  by (drule organizeProviderTask_result)
     (simp add: directTasks_def groupOf_def split: option.splits)

lemma organizeProviderTask_sub:
  "organizeProviderTask t sg = Inr sg' \<Longrightarrow>
   subGroupTasks sg' s k =
     subGroupTasks sg s k @ (if s = providerSource t \<and> extractTaskGroupName t = Some k then [t] else [])"
  by (drule organizeProviderTask_result)
     (simp add: subGroupTasks_def groupOf_def split: option.splits)

lemma organizeProviderTask_keys:
  "organizeProviderTask t sg = Inr sg' \<Longrightarrow>
   subGroupKeys sg' s =
     subGroupKeys sg s \<union> (if s = providerSource t then {k. extractTaskGroupName t = Some k} else {})"
  by (drule organizeProviderTask_result)
     (auto simp: subGroupKeys_def groupOf_def split: option.splits)

lemma organizeProviderTask_total:
  assumes "providerSource t \<notin> set objectPrototypeKeys"
    and "\<forall>k. extractTaskGroupName t = Some k \<longrightarrow> k \<notin> set objectPrototypeKeys"
  shows "\<exists>sg'. organizeProviderTask t sg = Inr sg'"
proof (cases "extractTaskGroupName t")
  case None
  with assms show ?thesis
    by (simp add: organizeProviderTask_def Let_def pushDirect_Inr getProperty_initSourceGroup split: option.splits)
next
  case (Some k)
  with extractTaskGroupName_nonempty [of t] have "k \<noteq> []" by auto
  from assms(1) have
    "\<exists>g. getProperty (initSourceGroup (providerSource t) sg) (providerSource t) = Own g"
    by (cases "sg (providerSource t)") (simp_all add: getProperty_initSourceGroup)
  then obtain g where
    g: "getProperty (initSourceGroup (providerSource t) sg) (providerSource t) = Own g" ..
  from assms(2) Some have "getProperty (subGroups g) k \<noteq> Inherited"
    by (simp add: getProperty_def split: option.splits)
  with g Some \<open>k \<noteq> []\<close> show ?thesis
    by (simp add: organizeProviderTask_def Let_def pushSubGroup_Inr)
qed

section \<open>The loop of organizeTasks\<close>

lemma organizeLoop_workspace:
  "organizeLoop ts acc = Inr r \<Longrightarrow> workspaceTasks r = workspaceTasks acc @ filter isWorkspaceTask ts"
  by (induction ts arbitrary: acc) (auto split: sum.splits if_splits)

lemma organizeLoop_dom:
  "organizeLoop ts acc = Inr r \<Longrightarrow>
   dom (sourceGroups r) = dom (sourceGroups acc) \<union> providerSource ` {t \<in> set ts. \<not> isWorkspaceTask t}"
  by (induction ts arbitrary: acc) (auto split: sum.splits if_splits dest!: organizeProviderTask_dom)

lemma organizeLoop_direct:
  "organizeLoop ts acc = Inr r \<Longrightarrow>
   directTasks (sourceGroups r) s =
     directTasks (sourceGroups acc) s @
     filter (\<lambda>t. \<not> isWorkspaceTask t \<and> providerSource t = s \<and> extractTaskGroupName t = None) ts"
proof (induction ts arbitrary: acc)
  case Nil
  then show ?case by simp
next
  case (Cons t ts)
  show ?case
  proof (cases "isWorkspaceTask t")
    case True
    with Cons.prems have "organizeLoop ts (acc\<lparr>workspaceTasks := workspaceTasks acc @ [t]\<rparr>) = Inr r"
      by simp
    from Cons.IH [OF this] True show ?thesis by simp
  next
    case False
    with Cons.prems obtain sg where
      step: "organizeProviderTask t (sourceGroups acc) = Inr sg" and
      rest: "organizeLoop ts (acc\<lparr>sourceGroups := sg\<rparr>) = Inr r"
      by (auto split: sum.splits)
    from Cons.IH [OF rest] organizeProviderTask_direct [OF step, of s] False
    show ?thesis by auto
  qed
qed

lemma organizeLoop_sub:
  "organizeLoop ts acc = Inr r \<Longrightarrow>
   subGroupTasks (sourceGroups r) s k =
     subGroupTasks (sourceGroups acc) s k @
     filter (\<lambda>t. \<not> isWorkspaceTask t \<and> providerSource t = s \<and> extractTaskGroupName t = Some k) ts"
proof (induction ts arbitrary: acc)
  case Nil
  then show ?case by simp
next
  case (Cons t ts)
  show ?case
  proof (cases "isWorkspaceTask t")
    case True
    with Cons.prems have "organizeLoop ts (acc\<lparr>workspaceTasks := workspaceTasks acc @ [t]\<rparr>) = Inr r"
      by simp
    from Cons.IH [OF this] True show ?thesis by simp
  next
    case False
    with Cons.prems obtain sg where
      step: "organizeProviderTask t (sourceGroups acc) = Inr sg" and
      rest: "organizeLoop ts (acc\<lparr>sourceGroups := sg\<rparr>) = Inr r"
      by (auto split: sum.splits)
    from Cons.IH [OF rest] organizeProviderTask_sub [OF step, of s k] False
    show ?thesis by auto
  qed
qed

lemma organizeLoop_keys:
  "organizeLoop ts acc = Inr r \<Longrightarrow>
   subGroupKeys (sourceGroups r) s =
     subGroupKeys (sourceGroups acc) s \<union>
     {k. \<exists>t\<in>set ts. \<not> isWorkspaceTask t \<and> providerSource t = s \<and> extractTaskGroupName t = Some k}"
proof (induction ts arbitrary: acc)
  case Nil
  then show ?case by simp
next
  case (Cons t ts)
  show ?case
  proof (cases "isWorkspaceTask t")
    case True
    with Cons.prems have "organizeLoop ts (acc\<lparr>workspaceTasks := workspaceTasks acc @ [t]\<rparr>) = Inr r"
      by simp
    from Cons.IH [OF this] True show ?thesis by simp
  next
    case False
    with Cons.prems obtain sg where
      step: "organizeProviderTask t (sourceGroups acc) = Inr sg" and
      rest: "organizeLoop ts (acc\<lparr>sourceGroups := sg\<rparr>) = Inr r"
      by (auto split: sum.splits)
    from Cons.IH [OF rest] organizeProviderTask_keys [OF step, of s] False
    show ?thesis by auto
  qed
qed

lemma organizeLoop_total:
  assumes "\<forall>t\<in>set ts. \<not> isWorkspaceTask t \<longrightarrow>
             providerSource t \<notin> set objectPrototypeKeys \<and>
             (\<forall>k. extractTaskGroupName t = Some k \<longrightarrow> k \<notin> set objectPrototypeKeys)"
  shows "\<exists>r. organizeLoop ts acc = Inr r"
  using assms
proof (induction ts arbitrary: acc)
  case Nil
  then show ?case by simp
next
  case (Cons t ts)
  show ?case
  proof (cases "isWorkspaceTask t")
    case True
    with Cons show ?thesis by simp
  next
    case False
    with Cons.prems obtain sg where "organizeProviderTask t (sourceGroups acc) = Inr sg"
      using organizeProviderTask_total [of t "sourceGroups acc"] by auto
    with False Cons show ?thesis by simp
  qed
qed

lemma provider_source: "\<not> isWorkspaceTask t \<Longrightarrow> source t = Some (providerSource t)"
  by (auto simp: isWorkspaceTask_def providerSource_def split: option.splits)

section \<open>Buckets of the organized result\<close>

lemma provider_source_iff: "\<not> isWorkspaceTask t \<Longrightarrow> providerSource t = s \<longleftrightarrow> source t = Some s"
  by (auto simp: isWorkspaceTask_def providerSource_def split: option.splits)

lemma provider_pred:
  "(\<not> isWorkspaceTask t \<and> providerSource t = s \<and> Q) \<longleftrightarrow>
   (\<not> isWorkspaceTask t \<and> source t = Some s \<and> Q)"
  by (auto simp: isWorkspaceTask_def providerSource_def split: option.splits)

lemma organizeTasks_workspace:
  "organizeTasks ts = Inr r \<Longrightarrow> workspaceTasks r = filter isWorkspaceTask ts"
  unfolding organizeTasks_def by (drule organizeLoop_workspace) simp

lemma organizeTasks_dom:
  "organizeTasks ts = Inr r \<Longrightarrow>
   dom (sourceGroups r) = providerSource ` {t \<in> set ts. \<not> isWorkspaceTask t}"
  unfolding organizeTasks_def by (drule organizeLoop_dom) simp

lemma organizeTasks_direct:
  "organizeTasks ts = Inr r \<Longrightarrow>
   directTasks (sourceGroups r) s =
     filter (\<lambda>t. \<not> isWorkspaceTask t \<and> source t = Some s \<and> extractTaskGroupName t = None) ts"
  unfolding organizeTasks_def
  by (drule organizeLoop_direct [where s = s])
     (simp add: directTasks_def provider_pred)

lemma organizeTasks_sub:
  "organizeTasks ts = Inr r \<Longrightarrow>
   subGroupTasks (sourceGroups r) s k =
     filter (\<lambda>t. \<not> isWorkspaceTask t \<and> source t = Some s \<and> extractTaskGroupName t = Some k) ts"
  unfolding organizeTasks_def
  by (drule organizeLoop_sub [where s = s and k = k])
     (simp add: subGroupTasks_def provider_pred)

lemma organizeTasks_keys:
  "organizeTasks ts = Inr r \<Longrightarrow>
   subGroupKeys (sourceGroups r) s =
     {k. \<exists>t\<in>set ts. \<not> isWorkspaceTask t \<and> source t = Some s \<and> extractTaskGroupName t = Some k}"
  unfolding organizeTasks_def
  by (drule organizeLoop_keys [where s = s])
     (simp add: subGroupKeys_def provider_pred)

lemma organizeTasks_source_dom:
  assumes "organizeTasks ts = Inr r"
  shows "dom (sourceGroups r) = {s. \<exists>t\<in>set ts. \<not> isWorkspaceTask t \<and> source t = Some s}"
  unfolding organizeTasks_dom [OF assms]
proof (intro set_eqI iffI)
  fix s assume "s \<in> providerSource ` {t \<in> set ts. \<not> isWorkspaceTask t}"
  then obtain t where "t \<in> set ts" "\<not> isWorkspaceTask t" "s = providerSource t" by auto
  then show "s \<in> {s. \<exists>t\<in>set ts. \<not> isWorkspaceTask t \<and> source t = Some s}"
    using provider_source [of t] by auto
next
  fix s assume "s \<in> {s. \<exists>t\<in>set ts. \<not> isWorkspaceTask t \<and> source t = Some s}"
  then obtain t where "t \<in> set ts" "\<not> isWorkspaceTask t" "source t = Some s" by auto
  then show "s \<in> providerSource ` {t \<in> set ts. \<not> isWorkspaceTask t}"
    using provider_source [of t] by force
qed

lemma organizeTasks_workspace_mem:
  "organizeTasks ts = Inr r \<Longrightarrow> t \<in> set (workspaceTasks r) \<longleftrightarrow> t \<in> set ts \<and> isWorkspaceTask t"
  by (auto simp: organizeTasks_workspace)

lemma organizeTasks_provider_bucket:
  assumes "organizeTasks ts = Inr r" and "t \<in> set ts" and "\<not> isWorkspaceTask t"
  shows "\<exists>g. sourceGroups r (providerSource t) = Some g \<and>
             (extractTaskGroupName t = None \<longrightarrow> t \<in> set (tasks g)) \<and>
             (\<forall>k. extractTaskGroupName t = Some k \<longrightarrow> (\<exists>l. subGroups g k = Some l \<and> t \<in> set l))"
proof -
  let ?s = "providerSource t"
  have src: "source t = Some ?s" by (rule provider_source [OF assms(3)])
  from assms have "?s \<in> dom (sourceGroups r)"
    by (auto simp: organizeTasks_dom)
  then obtain g where g: "sourceGroups r ?s = Some g" by auto
  have direct: "t \<in> set (tasks g)" if "extractTaskGroupName t = None"
    using organizeTasks_direct [OF assms(1), of ?s] g assms(2,3) src that
    by (simp add: directTasks_def)
  have sub: "\<exists>l. subGroups g k = Some l \<and> t \<in> set l" if k: "extractTaskGroupName t = Some k" for k
  proof -
    from organizeTasks_keys [OF assms(1), of ?s] g assms(2,3) src k
    have "k \<in> dom (subGroups g)" by (auto simp: subGroupKeys_def)
    then obtain l where l: "subGroups g k = Some l" by auto
    with organizeTasks_sub [OF assms(1), of ?s k] g assms(2,3) src k
    have "t \<in> set l" by (simp add: subGroupTasks_def)
    with l show ?thesis by blast
  qed
  show ?thesis
  proof (rule exI [of _ g], intro conjI allI impI)
    show "sourceGroups r ?s = Some g" by (rule g)
    show "t \<in> set (tasks g)" if "extractTaskGroupName t = None" using that by (rule direct)
    show "\<exists>l. subGroups g k = Some l \<and> t \<in> set l" if "extractTaskGroupName t = Some k" for k
      using that by (rule sub)
  qed
qed

lemma organizeTasks_workspace_not_provider:
  assumes "organizeTasks ts = Inr r" and "isWorkspaceTask t" and "sourceGroups r s = Some g"
  shows "t \<notin> set (tasks g) \<and> (\<forall>k l. subGroups g k = Some l \<longrightarrow> t \<notin> set l)"
proof (intro conjI allI impI)
  from organizeTasks_direct [OF assms(1), of s] assms(2,3)
  show "t \<notin> set (tasks g)" by (auto simp: directTasks_def)
next
  fix k l assume "subGroups g k = Some l"
  with organizeTasks_sub [OF assms(1), of s k] assms(2,3)
  show "t \<notin> set l" by (auto simp: subGroupTasks_def)
qed

lemma isWorkspaceTask_iff:
  "isWorkspaceTask t \<longleftrightarrow> source t = None \<or> source t = Some [] \<or> source t = Some ''Workspace''"
  by (auto simp: isWorkspaceTask_def split: option.splits)

lemma extractTaskGroupName_cases:
  "extractTaskGroupName t =
     (if group t = None \<or> group t = Some (PlainGroup []) then None
      else if group t = Some (StructuredGroup None) \<or> group t = Some (StructuredGroup (Some []))
      then Some ''build''
      else (case group t of
              Some (PlainGroup n) \<Rightarrow> Some n
            | Some (StructuredGroup (Some n)) \<Rightarrow> Some n))"
  by (simp add: extractTaskGroupName_def split: option.splits GroupField.splits)

lemma organizeTasks_no_empty_key:
  assumes "organizeTasks ts = Inr r" and "sourceGroups r s = Some g"
  shows "subGroups g [] = None"
proof -
  from organizeTasks_keys [OF assms(1), of s] assms(2)
  have "[] \<notin> dom (subGroups g)"
    by (simp add: subGroupKeys_def extractTaskGroupName_nonempty)
  then show ?thesis by auto
qed

lemma organizeTasks_direct_not_sub:
  assumes "organizeTasks ts = Inr r" and "extractTaskGroupName t = None"
    and "sourceGroups r s = Some g" and "subGroups g k = Some l"
  shows "t \<notin> set l"
  using organizeTasks_sub [OF assms(1), of s k] assms(2-4)
  by (auto simp: subGroupTasks_def)

section \<open>Which runs return\<close>

text \<open>
  \<^verbatim>\<open>organizeTasks\<close> returns exactly on the inputs in which no provider task has a source or a
  group name that is a member name of \<^verbatim>\<open>Object.prototype\<close>; on every other input it throws.
\<close>

lemma organizeProviderTask_Inr_source:
  assumes "organizeProviderTask t sg = Inr sg'" and "dom sg \<inter> set objectPrototypeKeys = {}"
  shows "providerSource t \<notin> set objectPrototypeKeys"
proof
  assume inh: "providerSource t \<in> set objectPrototypeKeys"
  with assms(2) have "sg (providerSource t) = None" by auto
  with inh have "getProperty (initSourceGroup (providerSource t) sg) (providerSource t) = Inherited"
    by (simp add: getProperty_initSourceGroup)
  then have "organizeProviderTask t sg = Inl TypeError"
    by (simp add: organizeProviderTask_def Let_def pushDirect_def pushSubGroup_def
             split: option.splits)
  with assms(1) show False by simp
qed

lemma organizeProviderTask_Inr_group:
  assumes "organizeProviderTask t sg = Inr sg'"
    and "subGroupKeys sg (providerSource t) \<inter> set objectPrototypeKeys = {}"
    and "extractTaskGroupName t = Some k"
  shows "k \<notin> set objectPrototypeKeys"
proof
  assume inh: "k \<in> set objectPrototypeKeys"
  from assms(3) extractTaskGroupName_nonempty [of t] have "k \<noteq> []" by auto
  with assms(1,3) have
    "pushSubGroup t (providerSource t) k (initSourceGroup (providerSource t) sg) = Inr sg'"
    by (simp add: organizeProviderTask_def Let_def)
  then obtain g where
    g: "getProperty (initSourceGroup (providerSource t) sg) (providerSource t) = Own g" and
    k: "getProperty (subGroups g) k \<noteq> Inherited"
    by (auto simp: pushSubGroup_Inr)
  from g have "dom (subGroups g) = subGroupKeys sg (providerSource t)"
    by (auto simp: getProperty_initSourceGroup subGroupKeys_def split: option.splits if_splits)
  with assms(2) inh have "subGroups g k = None" by auto
  with inh have "getProperty (subGroups g) k = Inherited" by (simp add: getProperty_def)
  with k show False by simp
qed

lemma organizeLoop_Inr_safe:
  assumes "organizeLoop ts acc = Inr r"
    and "dom (sourceGroups acc) \<inter> set objectPrototypeKeys = {}"
    and "\<forall>s. subGroupKeys (sourceGroups acc) s \<inter> set objectPrototypeKeys = {}"
    and "t \<in> set ts" and "\<not> isWorkspaceTask t"
  shows "providerSource t \<notin> set objectPrototypeKeys \<and>
         (\<forall>k. extractTaskGroupName t = Some k \<longrightarrow> k \<notin> set objectPrototypeKeys)"
  using assms
proof (induction ts arbitrary: acc)
  case Nil
  then show ?case by simp
next
  case (Cons u us)
  show ?case
  proof (cases "isWorkspaceTask u")
    case True
    with Cons.prems have run: "organizeLoop us (acc\<lparr>workspaceTasks := workspaceTasks acc @ [u]\<rparr>) = Inr r"
      and mem: "t \<in> set us"
      by auto
    from Cons.IH [OF run _ _ mem Cons.prems(5)] Cons.prems(2,3) show ?thesis by simp
  next
    case False
    with Cons.prems(1) obtain sg where
      step: "organizeProviderTask u (sourceGroups acc) = Inr sg" and
      rest: "organizeLoop us (acc\<lparr>sourceGroups := sg\<rparr>) = Inr r"
      by (auto split: sum.splits)
    have src: "providerSource u \<notin> set objectPrototypeKeys"
      by (rule organizeProviderTask_Inr_source [OF step Cons.prems(2)])
    have grp: "k \<notin> set objectPrototypeKeys" if "extractTaskGroupName u = Some k" for k
      using organizeProviderTask_Inr_group [OF step _ that] Cons.prems(3) by blast
    show ?thesis
    proof (cases "t = u")
      case True
      with src grp show ?thesis by blast
    next
      case neq: False
      with Cons.prems(4) have mem: "t \<in> set us" by simp
      have d: "dom (sourceGroups (acc\<lparr>sourceGroups := sg\<rparr>)) \<inter> set objectPrototypeKeys = {}"
        using organizeProviderTask_dom [OF step] src Cons.prems(2) by simp
      have k: "\<forall>s. subGroupKeys (sourceGroups (acc\<lparr>sourceGroups := sg\<rparr>)) s \<inter> set objectPrototypeKeys = {}"
        using organizeProviderTask_keys [OF step] grp Cons.prems(3) by auto
      from Cons.IH [OF rest d k mem Cons.prems(5)] show ?thesis .
    qed
  qed
qed

lemma organizeTasks_total:
  assumes "\<forall>t\<in>set ts. \<not> isWorkspaceTask t \<longrightarrow>
             providerSource t \<notin> set objectPrototypeKeys \<and>
             (\<forall>k. extractTaskGroupName t = Some k \<longrightarrow> k \<notin> set objectPrototypeKeys)"
  shows "\<exists>r. organizeTasks ts = Inr r"
  unfolding organizeTasks_def by (rule organizeLoop_total [OF assms])

lemma organizeTasks_returns_iff:
  "(\<exists>r. organizeTasks ts = Inr r) \<longleftrightarrow>
   (\<forall>t\<in>set ts. \<not> isWorkspaceTask t \<longrightarrow>
      providerSource t \<notin> set objectPrototypeKeys \<and>
      (\<forall>k. extractTaskGroupName t = Some k \<longrightarrow> k \<notin> set objectPrototypeKeys))"
proof
  assume "\<exists>r. organizeTasks ts = Inr r"
  then obtain r where run: "organizeLoop ts \<lparr>workspaceTasks = [], sourceGroups = Map.empty\<rparr> = Inr r"
    by (auto simp: organizeTasks_def)
  show "\<forall>t\<in>set ts. \<not> isWorkspaceTask t \<longrightarrow>
      providerSource t \<notin> set objectPrototypeKeys \<and>
      (\<forall>k. extractTaskGroupName t = Some k \<longrightarrow> k \<notin> set objectPrototypeKeys)"
  proof (intro ballI impI)
    fix t assume "t \<in> set ts" "\<not> isWorkspaceTask t"
    with organizeLoop_Inr_safe [OF run]
    show "providerSource t \<notin> set objectPrototypeKeys \<and>
      (\<forall>k. extractTaskGroupName t = Some k \<longrightarrow> k \<notin> set objectPrototypeKeys)"
      by (simp add: subGroupKeys_def)
  qed
next
  assume "\<forall>t\<in>set ts. \<not> isWorkspaceTask t \<longrightarrow>
      providerSource t \<notin> set objectPrototypeKeys \<and>
      (\<forall>k. extractTaskGroupName t = Some k \<longrightarrow> k \<notin> set objectPrototypeKeys)"
  then show "\<exists>r. organizeTasks ts = Inr r" by (rule organizeTasks_total)
qed

section \<open>The organized result as a partition of the input\<close>

text \<open>
  On every returning run the buckets together hold exactly the input tasks, each as often
  as the input does, so the bucket lengths add up to the length of the input.
\<close>

lemma sum_filter_mset_keys:
  assumes "finite A"
  shows "(\<Sum>a\<in>A. {#t \<in># M. f t = Some a \<and> P t#}) = {#t \<in># M. f t \<in> Some ` A \<and> P t#}"
proof (rule multiset_eqI)
  fix x
  show "count (\<Sum>a\<in>A. {#t \<in># M. f t = Some a \<and> P t#}) x =
        count {#t \<in># M. f t \<in> Some ` A \<and> P t#} x"
  proof (cases "f x \<in> Some ` A \<and> P x")
    case True
    then obtain b where b: "b \<in> A" "f x = Some b" "P x" by auto
    have "count (\<Sum>a\<in>A. {#t \<in># M. f t = Some a \<and> P t#}) x =
          (\<Sum>a\<in>A. if b = a then count M x else 0)"
      using b by (simp add: count_sum)
    also have "\<dots> = count M x" using assms b by simp
    finally show ?thesis using True by simp
  next
    case False
    then have "\<And>a. a \<in> A \<Longrightarrow> \<not> (f x = Some a \<and> P x)" by auto
    then have "(\<Sum>a\<in>A. if f x = Some a \<and> P x then count M x else 0) = (\<Sum>a\<in>A. 0)"
      by (intro sum.cong refl) auto
    then have "count (\<Sum>a\<in>A. {#t \<in># M. f t = Some a \<and> P t#}) x = 0"
      by (simp add: count_sum)
    with False show ?thesis by auto
  qed
qed

lemma size_groupBag: "size (groupBag g) = groupSize g"
  by (simp add: groupBag_def groupSize_def)

lemma size_organizedBag: "size (organizedBag r) = organizedSize r"
  by (simp add: organizedBag_def organizedSize_def size_groupBag)

lemma organizeTasks_finite_sources:
  assumes "organizeTasks ts = Inr r"
  shows "finite (dom (sourceGroups r))"
  unfolding organizeTasks_dom [OF assms] by simp

lemma organizeTasks_subGroup_keys:
  assumes "organizeTasks ts = Inr r" and "sourceGroups r s = Some g"
  shows "dom (subGroups g) =
           {k. \<exists>t\<in>set ts. \<not> isWorkspaceTask t \<and> source t = Some s \<and> extractTaskGroupName t = Some k}"
  using organizeTasks_keys [OF assms(1), of s] assms(2) by (simp add: subGroupKeys_def)

lemma organizeTasks_finite_subGroups:
  assumes "organizeTasks ts = Inr r" and "sourceGroups r s = Some g"
  shows "finite (dom (subGroups g))"
proof -
  have "dom (subGroups g) \<subseteq> (\<lambda>t. the (extractTaskGroupName t)) ` set ts"
    unfolding organizeTasks_subGroup_keys [OF assms] by force
  then show ?thesis by (rule finite_surj [rotated]) simp
qed

lemma organizeTasks_groupBag:
  assumes "organizeTasks ts = Inr r" and "sourceGroups r s = Some g"
  shows "groupBag g = {#t \<in># mset ts. source t = Some s \<and> \<not> isWorkspaceTask t#}"
proof -
  let ?P = "\<lambda>t. \<not> isWorkspaceTask t \<and> source t = Some s"
  have keys: "dom (subGroups g) = {k. \<exists>t\<in>set ts. ?P t \<and> extractTaskGroupName t = Some k}"
    using organizeTasks_subGroup_keys [OF assms] by simp
  have direct: "mset (tasks g) = {#t \<in># mset ts. extractTaskGroupName t = None \<and> ?P t#}"
    using organizeTasks_direct [OF assms(1), of s] assms(2)
    by (auto simp: directTasks_def intro: filter_mset_cong)
  have sub: "mset (the (subGroups g k)) = {#t \<in># mset ts. extractTaskGroupName t = Some k \<and> ?P t#}"
    if "k \<in> dom (subGroups g)" for k
    using organizeTasks_sub [OF assms(1), of s k] assms(2) that
    by (auto simp: subGroupTasks_def intro: filter_mset_cong)
  have "(\<Sum>k\<in>dom (subGroups g). mset (the (subGroups g k))) =
        (\<Sum>k\<in>dom (subGroups g). {#t \<in># mset ts. extractTaskGroupName t = Some k \<and> ?P t#})"
    by (rule sum.cong [OF refl]) (rule sub)
  also have "\<dots> = {#t \<in># mset ts. extractTaskGroupName t \<in> Some ` dom (subGroups g) \<and> ?P t#}"
    by (rule sum_filter_mset_keys [OF organizeTasks_finite_subGroups [OF assms]])
  also have "\<dots> = {#t \<in># mset ts. extractTaskGroupName t \<noteq> None \<and> ?P t#}"
    unfolding keys by (rule filter_mset_cong) auto
  finally have subs: "(\<Sum>k\<in>dom (subGroups g). mset (the (subGroups g k))) =
        {#t \<in># mset ts. extractTaskGroupName t \<noteq> None \<and> ?P t#}" .
  show ?thesis
    unfolding groupBag_def direct subs
    by (rule multiset_eqI) auto
qed

lemma organizeTasks_partition:
  assumes "organizeTasks ts = Inr r"
  shows "organizedBag r = mset ts"
proof -
  have "(\<Sum>s\<in>dom (sourceGroups r). groupBag (the (sourceGroups r s))) =
        (\<Sum>s\<in>dom (sourceGroups r). {#t \<in># mset ts. source t = Some s \<and> \<not> isWorkspaceTask t#})"
    by (rule sum.cong [OF refl]) (auto simp: organizeTasks_groupBag [OF assms])
  also have "\<dots> = {#t \<in># mset ts. source t \<in> Some ` dom (sourceGroups r) \<and> \<not> isWorkspaceTask t#}"
    by (rule sum_filter_mset_keys [OF organizeTasks_finite_sources [OF assms]])
  also have "\<dots> = {#t \<in># mset ts. \<not> isWorkspaceTask t#}"
    unfolding organizeTasks_source_dom [OF assms]
    by (rule filter_mset_cong) (auto simp: image_iff dest: provider_source)
  finally show ?thesis
    by (simp add: organizedBag_def organizeTasks_workspace [OF assms])
qed

lemma organizeTasks_partition_size:
  assumes "organizeTasks ts = Inr r"
  shows "organizedSize r = length ts"
  using organizeTasks_partition [OF assms] size_organizedBag [of r] by simp

section \<open>The status map\<close>

lemma isRunning_iff: "isRunning es t \<longleftrightarrow> (\<exists>e\<in>set es. name (task e) = name t)"
  by (simp add: isRunning_def list_ex_iff)

lemma statusFold_lookup:
  "foldl (\<lambda>m t. setProperty m (name t) (if isRunning es t then yellow else grey)) m0 ts n =
     (if n \<in> name ` set ts \<and> n \<noteq> ''__proto__''
      then Some (if \<exists>e\<in>set es. name (task e) = n then yellow else grey)
      else m0 n)"
proof (induction ts arbitrary: m0)
  case Nil
  show ?case by simp
next
  case (Cons t ts)
  show ?case
    unfolding foldl_Cons Cons.IH
    by (auto simp: setProperty_def isRunning_iff)
qed

lemma createTaskStatuses_lookup:
  "createTaskStatuses ts es n =
     (if n \<in> name ` set ts \<and> n \<noteq> ''__proto__''
      then Some (if \<exists>e\<in>set es. name (task e) = n then yellow else grey)
      else None)"
  unfolding createTaskStatuses_def statusFold_lookup by simp

lemma createTaskStatuses_dom: "dom (createTaskStatuses ts es) = name ` set ts - {''__proto__''}"
  by (auto simp: dom_def createTaskStatuses_lookup)

lemma createTaskStatuses_safe:
  assumes "\<forall>t\<in>set ts. name t \<noteq> ''__proto__''"
  shows "dom (createTaskStatuses ts es) = name ` set ts \<and>
         (\<forall>t\<in>set ts. createTaskStatuses ts es (name t) =
            Some (if \<exists>e\<in>set es. name (task e) = name t then yellow else grey))"
proof (intro conjI ballI)
  from assms have "''__proto__'' \<notin> name ` set ts" by force
  then show "dom (createTaskStatuses ts es) = name ` set ts"
    by (simp add: createTaskStatuses_dom)
next
  fix t assume "t \<in> set ts"
  with assms have "name t \<in> name ` set ts" "name t \<noteq> ''__proto__''" by auto
  then show "createTaskStatuses ts es (name t) =
            Some (if \<exists>e\<in>set es. name (task e) = name t then yellow else grey)"
    by (simp only: createTaskStatuses_lookup simp_thms if_True)
qed

section \<open>The claims about the classifier\<close>

text \<open>
  Claim C1 (partition completeness). The claim holds on every run that returns (lemmas
  \<open>organizeTasks_partition\<close> and \<open>organizeTasks_partition_size\<close>), but not every run
  returns: for a provider task whose source is \<^verbatim>\<open>constructor\<close> the read
  \<^verbatim>\<open>sourceGroups[source]\<close> finds the inherited member \<^verbatim>\<open>Object.prototype.constructor\<close>, no
  group is created, and \<^verbatim>\<open>sourceGroups[source].tasks.push(task)\<close> throws a TypeError. No
  organized result exists for that input, so its task is in no bucket.
\<close>

theorem organizeTasks_inherited_source:
  "organizeTasks [constructorTask] = Inl TypeError"
  by (simp add: organize_eval)

text \<open>
  Claim C3 (group id resolution), as the code has it. For a provider task of a returning
  run, with \<open>g\<close> the group object of its source: an absent group and the empty plain
  string give no group id and the task is in the direct list of \<open>g\<close>; a non-empty plain
  string, and a structured value with a non-empty id, give that string and the task is in
  the subgroup list under it; a structured value without id or with the empty id gives
  \<^verbatim>\<open>build\<close> and the task is in the subgroup list \<^verbatim>\<open>build\<close>.
\<close>

theorem organizeTasks_group_routing:
  assumes "organizeTasks ts = Inr r" and "t \<in> set ts" and "\<not> isWorkspaceTask t"
  shows "\<exists>s g. source t = Some s \<and> sourceGroups r s = Some g \<and>
           (group t = None \<or> group t = Some (PlainGroup []) \<longrightarrow>
              extractTaskGroupName t = None \<and> t \<in> set (tasks g)) \<and>
           (\<forall>n. n \<noteq> [] \<and> (group t = Some (PlainGroup n) \<or> group t = Some (StructuredGroup (Some n))) \<longrightarrow>
              extractTaskGroupName t = Some n \<and> (\<exists>l. subGroups g n = Some l \<and> t \<in> set l)) \<and>
           (group t = Some (StructuredGroup None) \<or> group t = Some (StructuredGroup (Some [])) \<longrightarrow>
              extractTaskGroupName t = Some ''build'' \<and>
              (\<exists>l. subGroups g ''build'' = Some l \<and> t \<in> set l))"
proof -
  from organizeTasks_provider_bucket [OF assms] obtain g where
    g: "sourceGroups r (providerSource t) = Some g" and
    d0: "extractTaskGroupName t = None \<longrightarrow> t \<in> set (tasks g)" and
    s0: "\<forall>k. extractTaskGroupName t = Some k \<longrightarrow> (\<exists>l. subGroups g k = Some l \<and> t \<in> set l)"
    by auto
  note d = d0 [rule_format] and s = s0 [rule_format]
  show ?thesis
  proof (rule exI [of _ "providerSource t"], rule exI [of _ g], intro conjI allI impI)
    show "source t = Some (providerSource t)" by (rule provider_source [OF assms(3)])
    show "sourceGroups r (providerSource t) = Some g" by (rule g)
  next
    assume a: "group t = None \<or> group t = Some (PlainGroup [])"
    then show n: "extractTaskGroupName t = None" by (auto simp: extractTaskGroupName_cases)
    then show "t \<in> set (tasks g)" by (rule d)
  next
    fix n
    assume a: "n \<noteq> [] \<and> (group t = Some (PlainGroup n) \<or> group t = Some (StructuredGroup (Some n)))"
    then show e: "extractTaskGroupName t = Some n" by (auto simp: extractTaskGroupName_cases)
    then show "\<exists>l. subGroups g n = Some l \<and> t \<in> set l" by (rule s)
  next
    assume a: "group t = Some (StructuredGroup None) \<or> group t = Some (StructuredGroup (Some []))"
    then show e: "extractTaskGroupName t = Some ''build''" by (auto simp: extractTaskGroupName_cases)
    then show "\<exists>l. subGroups g ''build'' = Some l \<and> t \<in> set l" by (rule s)
  qed
qed

text \<open>
  The theorem at four \<^verbatim>\<open>npm\<close> tasks, one for each way of resolving the group id.
\<close>

theorem organizeTasks_group_routing_witness:
  "organizeTasks [compileTask, lintTask, cleanTask, noIdTask] =
     Inr \<lparr>workspaceTasks = [],
          sourceGroups = [''npm'' \<mapsto>
            \<lparr>tasks = [compileTask],
             subGroups = [''test'' \<mapsto> [lintTask], ''clean'' \<mapsto> [cleanTask], ''build'' \<mapsto> [noIdTask]]\<rparr>]\<rparr> \<and>
   (\<exists>s g. source compileTask = Some s \<and>
          [''npm'' \<mapsto> \<lparr>tasks = [compileTask],
             subGroups = [''test'' \<mapsto> [lintTask], ''clean'' \<mapsto> [cleanTask], ''build'' \<mapsto> [noIdTask]]\<rparr>] s = Some g \<and>
          extractTaskGroupName compileTask = None \<and> compileTask \<in> set (tasks g)) \<and>
   (\<exists>s g l. source lintTask = Some s \<and>
          [''npm'' \<mapsto> \<lparr>tasks = [compileTask],
             subGroups = [''test'' \<mapsto> [lintTask], ''clean'' \<mapsto> [cleanTask], ''build'' \<mapsto> [noIdTask]]\<rparr>] s = Some g \<and>
          extractTaskGroupName lintTask = Some ''test'' \<and>
          subGroups g ''test'' = Some l \<and> lintTask \<in> set l) \<and>
   (\<exists>s g l. source cleanTask = Some s \<and>
          [''npm'' \<mapsto> \<lparr>tasks = [compileTask],
             subGroups = [''test'' \<mapsto> [lintTask], ''clean'' \<mapsto> [cleanTask], ''build'' \<mapsto> [noIdTask]]\<rparr>] s = Some g \<and>
          extractTaskGroupName cleanTask = Some ''clean'' \<and>
          subGroups g ''clean'' = Some l \<and> cleanTask \<in> set l) \<and>
   (\<exists>s g l. source noIdTask = Some s \<and>
          [''npm'' \<mapsto> \<lparr>tasks = [compileTask],
             subGroups = [''test'' \<mapsto> [lintTask], ''clean'' \<mapsto> [cleanTask], ''build'' \<mapsto> [noIdTask]]\<rparr>] s = Some g \<and>
          extractTaskGroupName noIdTask = Some ''build'' \<and>
          subGroups g ''build'' = Some l \<and> noIdTask \<in> set l)"
proof -
  let ?ts = "[compileTask, lintTask, cleanTask, noIdTask]"
  let ?sg = "[''npm'' \<mapsto> \<lparr>tasks = [compileTask],
             subGroups = [''test'' \<mapsto> [lintTask], ''clean'' \<mapsto> [cleanTask], ''build'' \<mapsto> [noIdTask]]\<rparr>]"
  let ?r = "\<lparr>workspaceTasks = [], sourceGroups = ?sg\<rparr>"
  have run: "organizeTasks ?ts = Inr ?r"
    by (simp add: organize_eval)
  have sg: "sourceGroups ?r = ?sg" by simp
  have m: "compileTask \<in> set ?ts" "lintTask \<in> set ?ts" "cleanTask \<in> set ?ts" "noIdTask \<in> set ?ts"
    by simp_all
  have p: "\<not> isWorkspaceTask compileTask" "\<not> isWorkspaceTask lintTask"
    "\<not> isWorkspaceTask cleanTask" "\<not> isWorkspaceTask noIdTask"
    by (simp_all add: isWorkspaceTask_def)
  have g1: "group compileTask = None \<or> group compileTask = Some (PlainGroup [])" by simp
  have g2: "''test'' \<noteq> [] \<and> (group lintTask = Some (PlainGroup ''test'') \<or>
              group lintTask = Some (StructuredGroup (Some ''test'')))" by simp
  have g3: "''clean'' \<noteq> [] \<and> (group cleanTask = Some (PlainGroup ''clean'') \<or>
              group cleanTask = Some (StructuredGroup (Some ''clean'')))" by simp
  have g4: "group noIdTask = Some (StructuredGroup None) \<or>
            group noIdTask = Some (StructuredGroup (Some []))" by simp
  from organizeTasks_group_routing [OF run m(1) p(1)] g1
  have 1: "\<exists>s g. source compileTask = Some s \<and> ?sg s = Some g \<and>
          extractTaskGroupName compileTask = None \<and> compileTask \<in> set (tasks g)"
    unfolding sg by blast
  from organizeTasks_group_routing [OF run m(2) p(2)] g2
  have 2: "\<exists>s g l. source lintTask = Some s \<and> ?sg s = Some g \<and>
          extractTaskGroupName lintTask = Some ''test'' \<and>
          subGroups g ''test'' = Some l \<and> lintTask \<in> set l"
    unfolding sg by blast
  from organizeTasks_group_routing [OF run m(3) p(3)] g3
  have 3: "\<exists>s g l. source cleanTask = Some s \<and> ?sg s = Some g \<and>
          extractTaskGroupName cleanTask = Some ''clean'' \<and>
          subGroups g ''clean'' = Some l \<and> cleanTask \<in> set l"
    unfolding sg by blast
  from organizeTasks_group_routing [OF run m(4) p(4)] g4
  have 4: "\<exists>s g l. source noIdTask = Some s \<and> ?sg s = Some g \<and>
          extractTaskGroupName noIdTask = Some ''build'' \<and>
          subGroups g ''build'' = Some l \<and> noIdTask \<in> set l"
    unfolding sg by blast
  from run 1 2 3 4 show ?thesis by (intro conjI)
qed

text \<open>
  The claim as stated fails for the empty strings: a plain string group \<^verbatim>\<open>""\<close> is not
  taken as the id (the task goes to the direct list, no subgroup \<^verbatim>\<open>""\<close> exists), and a
  structured group whose id is \<^verbatim>\<open>""\<close> resolves to \<^verbatim>\<open>build\<close>, not to its id field.
\<close>

theorem organizeTasks_group_routing_counterexample:
  "extractTaskGroupName emptyGroupTask = None \<and>
   organizeTasks [emptyGroupTask] =
     Inr \<lparr>workspaceTasks = [],
          sourceGroups = [''npm'' \<mapsto> \<lparr>tasks = [emptyGroupTask], subGroups = Map.empty\<rparr>]\<rparr> \<and>
   extractTaskGroupName emptyIdTask = Some ''build'' \<and>
   organizeTasks [emptyIdTask] =
     Inr \<lparr>workspaceTasks = [],
          sourceGroups = [''npm'' \<mapsto> \<lparr>tasks = [], subGroups = [''build'' \<mapsto> [emptyIdTask]]\<rparr>]\<rparr>"
  by (simp add: organize_eval)

text \<open>
  Claim C4 (workspace routing), as the code has it. In a returning run an input task is
  in \<^verbatim>\<open>workspaceTasks\<close> iff its source is absent, the empty string, or exactly
  \<^verbatim>\<open>Workspace\<close>; such a task is in no bucket of \<^verbatim>\<open>sourceGroups\<close>; and a task with source
  \<^verbatim>\<open>workspace\<close> (lower case) is not in \<^verbatim>\<open>workspaceTasks\<close> but in a bucket of the source key
  \<^verbatim>\<open>workspace\<close>.
\<close>

theorem organizeTasks_workspace_routing:
  assumes "organizeTasks ts = Inr r" and "t \<in> set ts"
  shows "(t \<in> set (workspaceTasks r) \<longleftrightarrow>
            source t = None \<or> source t = Some [] \<or> source t = Some ''Workspace'') \<and>
         (t \<in> set (workspaceTasks r) \<longrightarrow>
            (\<forall>s g. sourceGroups r s = Some g \<longrightarrow>
               t \<notin> set (tasks g) \<and> (\<forall>k l. subGroups g k = Some l \<longrightarrow> t \<notin> set l))) \<and>
         (source t = Some ''workspace'' \<longrightarrow>
            t \<notin> set (workspaceTasks r) \<and>
            (\<exists>g. sourceGroups r ''workspace'' = Some g \<and>
                 (t \<in> set (tasks g) \<or> (\<exists>k l. subGroups g k = Some l \<and> t \<in> set l))))"
proof (intro conjI impI)
  show ws: "t \<in> set (workspaceTasks r) \<longleftrightarrow>
            source t = None \<or> source t = Some [] \<or> source t = Some ''Workspace''"
    using assms by (simp add: organizeTasks_workspace_mem isWorkspaceTask_iff)
  show "\<forall>s g. sourceGroups r s = Some g \<longrightarrow>
               t \<notin> set (tasks g) \<and> (\<forall>k l. subGroups g k = Some l \<longrightarrow> t \<notin> set l)"
    if "t \<in> set (workspaceTasks r)"
    using that organizeTasks_workspace_not_provider [OF assms(1), of t]
    by (simp add: organizeTasks_workspace_mem [OF assms(1)])
  assume lower: "source t = Some ''workspace''"
  then have nw: "\<not> isWorkspaceTask t" by (simp add: isWorkspaceTask_iff)
  then show "t \<notin> set (workspaceTasks r)"
    by (simp add: organizeTasks_workspace_mem [OF assms(1)])
  from lower have "providerSource t = ''workspace''" by (simp add: providerSource_def)
  with organizeTasks_provider_bucket [OF assms nw] obtain g where
    g: "sourceGroups r ''workspace'' = Some g" and
    d: "extractTaskGroupName t = None \<longrightarrow> t \<in> set (tasks g)" and
    s: "\<forall>k. extractTaskGroupName t = Some k \<longrightarrow> (\<exists>l. subGroups g k = Some l \<and> t \<in> set l)"
    by auto
  from d s have "t \<in> set (tasks g) \<or> (\<exists>k l. subGroups g k = Some l \<and> t \<in> set l)"
    by (cases "extractTaskGroupName t") blast+
  with g show "\<exists>g. sourceGroups r ''workspace'' = Some g \<and>
                 (t \<in> set (tasks g) \<or> (\<exists>k l. subGroups g k = Some l \<and> t \<in> set l))"
    by blast
qed

text \<open>
  The theorem at a snapshot with the four kinds of source, for the lower-case task.
\<close>

theorem organizeTasks_workspace_routing_witness:
  "organizeTasks [devTask, workspaceTask, lowerTask, emptySourceTask] =
     Inr \<lparr>workspaceTasks = [devTask, workspaceTask, emptySourceTask],
          sourceGroups = [''workspace'' \<mapsto> \<lparr>tasks = [lowerTask], subGroups = Map.empty\<rparr>]\<rparr> \<and>
   lowerTask \<notin> set [devTask, workspaceTask, emptySourceTask] \<and>
   (\<exists>g. [''workspace'' \<mapsto> \<lparr>tasks = [lowerTask], subGroups = Map.empty\<rparr>] ''workspace'' = Some g \<and>
        (lowerTask \<in> set (tasks g) \<or> (\<exists>k l. subGroups g k = Some l \<and> lowerTask \<in> set l)))"
proof -
  let ?ts = "[devTask, workspaceTask, lowerTask, emptySourceTask]"
  let ?r = "\<lparr>workspaceTasks = [devTask, workspaceTask, emptySourceTask],
          sourceGroups = [''workspace'' \<mapsto> \<lparr>tasks = [lowerTask], subGroups = Map.empty\<rparr>]\<rparr>"
  have run: "organizeTasks ?ts = Inr ?r"
    by (simp add: organize_eval)
  have mem: "lowerTask \<in> set ?ts" by simp
  have lower: "source lowerTask = Some ''workspace''" by simp
  from organizeTasks_workspace_routing [OF run mem] lower
  have "lowerTask \<notin> set (workspaceTasks ?r) \<and>
        (\<exists>g. sourceGroups ?r ''workspace'' = Some g \<and>
             (lowerTask \<in> set (tasks g) \<or> (\<exists>k l. subGroups g k = Some l \<and> lowerTask \<in> set l)))"
    by blast
  with run show ?thesis by simp
qed

text \<open>
  The claim as stated fails for the present, empty source: it is neither absent nor
  \<^verbatim>\<open>Workspace\<close>, and the task is routed to \<^verbatim>\<open>workspaceTasks\<close>.
\<close>

theorem organizeTasks_workspace_routing_counterexample:
  "organizeTasks [emptySourceTask] = Inr \<lparr>workspaceTasks = [emptySourceTask], sourceGroups = Map.empty\<rparr> \<and>
   source emptySourceTask \<noteq> None \<and> source emptySourceTask \<noteq> Some ''Workspace''"
  by (simp add: organize_eval)

text \<open>
  Claim C5 (empty source), as the code has it. In a returning run a task whose source is
  the present, empty string is in \<^verbatim>\<open>workspaceTasks\<close> and in no bucket of \<^verbatim>\<open>sourceGroups\<close>;
  the key \<^verbatim>\<open>Unknown\<close> exists only when some input task has the source \<^verbatim>\<open>Unknown\<close> itself.
\<close>

theorem organizeTasks_empty_source:
  assumes "organizeTasks ts = Inr r" and "t \<in> set ts" and "source t = Some []"
  shows "t \<in> set (workspaceTasks r) \<and>
         (\<forall>s g. sourceGroups r s = Some g \<longrightarrow>
            t \<notin> set (tasks g) \<and> (\<forall>k l. subGroups g k = Some l \<longrightarrow> t \<notin> set l)) \<and>
         (''Unknown'' \<in> dom (sourceGroups r) \<longleftrightarrow> (\<exists>u\<in>set ts. source u = Some ''Unknown''))"
proof (intro conjI allI impI)
  from assms(3) have w: "isWorkspaceTask t" by (simp add: isWorkspaceTask_iff)
  with assms show "t \<in> set (workspaceTasks r)" by (simp add: organizeTasks_workspace_mem)
  show "t \<notin> set (tasks g)" if "sourceGroups r s = Some g" for s g
    using organizeTasks_workspace_not_provider [OF assms(1) w that] by simp
  show "t \<notin> set l" if "sourceGroups r s = Some g" "subGroups g k = Some l" for s g k l
    using organizeTasks_workspace_not_provider [OF assms(1) w that(1)] that(2) by simp
  have "\<not> isWorkspaceTask u" if "source u = Some ''Unknown''" for u :: "'a Task_scheme"
    using that by (simp add: isWorkspaceTask_iff)
  then show "''Unknown'' \<in> dom (sourceGroups r) \<longleftrightarrow> (\<exists>u\<in>set ts. source u = Some ''Unknown'')"
    unfolding organizeTasks_source_dom [OF assms(1)] by auto
qed

text \<open>
  The theorem at a snapshot of an empty-source task and an \<^verbatim>\<open>npm\<close> task.
\<close>

theorem organizeTasks_empty_source_witness:
  "organizeTasks [emptySourceTask, lintTask] =
     Inr \<lparr>workspaceTasks = [emptySourceTask],
          sourceGroups = [''npm'' \<mapsto> \<lparr>tasks = [], subGroups = [''test'' \<mapsto> [lintTask]]\<rparr>]\<rparr> \<and>
   emptySourceTask \<in> set [emptySourceTask] \<and>
   ''Unknown'' \<notin> dom [''npm'' \<mapsto> \<lparr>tasks = [], subGroups = [''test'' \<mapsto> [lintTask]]\<rparr>]"
proof -
  let ?ts = "[emptySourceTask, lintTask]"
  let ?r = "\<lparr>workspaceTasks = [emptySourceTask],
          sourceGroups = [''npm'' \<mapsto> \<lparr>tasks = [], subGroups = [''test'' \<mapsto> [lintTask]]\<rparr>]\<rparr>"
  have run: "organizeTasks ?ts = Inr ?r"
    by (simp add: organize_eval)
  have mem: "emptySourceTask \<in> set ?ts" by simp
  have src: "source emptySourceTask = Some []" by simp
  from organizeTasks_empty_source [OF run mem src]
  have "emptySourceTask \<in> set (workspaceTasks ?r)" and
       "''Unknown'' \<in> dom (sourceGroups ?r) \<longleftrightarrow> (\<exists>u\<in>set ?ts. source u = Some ''Unknown'')"
    by blast+
  with run show ?thesis by simp
qed

text \<open>
  The claim as stated fails: a task with source \<^verbatim>\<open>""\<close> and group \<^verbatim>\<open>test\<close> ends in
  \<^verbatim>\<open>workspaceTasks\<close>, and \<^verbatim>\<open>sourceGroups\<close> stays empty, without a key \<^verbatim>\<open>Unknown\<close>.
\<close>

theorem organizeTasks_empty_source_counterexample:
  "organizeTasks [\<lparr>name = ''lint'', source = Some [], group = Some (PlainGroup ''test'')\<rparr>] =
     Inr \<lparr>workspaceTasks = [\<lparr>name = ''lint'', source = Some [], group = Some (PlainGroup ''test'')\<rparr>],
          sourceGroups = Map.empty\<rparr>"
  by (simp add: organize_eval)

text \<open>
  Claim C6 (order preservation). Whenever \<^verbatim>\<open>organizeTasks\<close> returns, every output bucket is
  the input list filtered by the bucket's membership test: \<^verbatim>\<open>workspaceTasks\<close> by
  \<open>isWorkspaceTask\<close>, the direct list of source \<open>s\<close> by "provider task of source \<open>s\<close> without
  group name", the subgroup \<open>k\<close> of source \<open>s\<close> by "provider task of source \<open>s\<close> with group
  name \<open>k\<close>". A filtered list keeps the elements in the order of the input: each bucket
  is a subsequence of the input (\<open>subseq\<close>), so any two tasks of one bucket stand in their
  input order; nothing is sorted or reordered.
\<close>

theorem organizeTasks_order_preserved:
  assumes "organizeTasks ts = Inr r"
  shows "workspaceTasks r = filter isWorkspaceTask ts \<and> subseq (workspaceTasks r) ts \<and>
         (\<forall>s g. sourceGroups r s = Some g \<longrightarrow>
            tasks g = filter (\<lambda>t. \<not> isWorkspaceTask t \<and> source t = Some s \<and>
                                   extractTaskGroupName t = None) ts \<and>
            subseq (tasks g) ts \<and>
            (\<forall>k l. subGroups g k = Some l \<longrightarrow>
               l = filter (\<lambda>t. \<not> isWorkspaceTask t \<and> source t = Some s \<and>
                                 extractTaskGroupName t = Some k) ts \<and>
               subseq l ts))"
proof (intro conjI allI impI)
  show ws: "workspaceTasks r = filter isWorkspaceTask ts"
    by (rule organizeTasks_workspace [OF assms])
  show "subseq (workspaceTasks r) ts"
    unfolding ws by (rule subseq_filter_left)
next
  fix s g
  assume "sourceGroups r s = Some g"
  with organizeTasks_direct [OF assms, of s]
  show d: "tasks g = filter (\<lambda>t. \<not> isWorkspaceTask t \<and> source t = Some s \<and>
                                   extractTaskGroupName t = None) ts"
    by (simp add: directTasks_def)
  show "subseq (tasks g) ts"
    unfolding d by (rule subseq_filter_left)
next
  fix s g k l
  assume "sourceGroups r s = Some g" "subGroups g k = Some l"
  with organizeTasks_sub [OF assms, of s k]
  show l: "l = filter (\<lambda>t. \<not> isWorkspaceTask t \<and> source t = Some s \<and>
                                 extractTaskGroupName t = Some k) ts"
    by (simp add: subGroupTasks_def)
  show "subseq l ts"
    unfolding l by (rule subseq_filter_left)
qed

text \<open>
  The theorem at a snapshot of five tasks: both \<^verbatim>\<open>npm\<close> buckets hold two tasks, in input
  order.
\<close>

theorem organizeTasks_order_preserved_witness:
  "organizeTasks [lintTask, compileTask, devTask, unitTask, packTask] =
     Inr \<lparr>workspaceTasks = [devTask],
          sourceGroups = [''npm'' \<mapsto> \<lparr>tasks = [compileTask, packTask],
                                      subGroups = [''test'' \<mapsto> [lintTask, unitTask]]\<rparr>]\<rparr> \<and>
   [devTask] = filter isWorkspaceTask [lintTask, compileTask, devTask, unitTask, packTask] \<and>
   [compileTask, packTask] =
     filter (\<lambda>t. \<not> isWorkspaceTask t \<and> source t = Some ''npm'' \<and> extractTaskGroupName t = None)
       [lintTask, compileTask, devTask, unitTask, packTask] \<and>
   subseq [compileTask, packTask] [lintTask, compileTask, devTask, unitTask, packTask] \<and>
   [lintTask, unitTask] =
     filter (\<lambda>t. \<not> isWorkspaceTask t \<and> source t = Some ''npm'' \<and>
                 extractTaskGroupName t = Some ''test'')
       [lintTask, compileTask, devTask, unitTask, packTask] \<and>
   subseq [lintTask, unitTask] [lintTask, compileTask, devTask, unitTask, packTask]"
proof -
  let ?ts = "[lintTask, compileTask, devTask, unitTask, packTask]"
  let ?g = "\<lparr>tasks = [compileTask, packTask], subGroups = [''test'' \<mapsto> [lintTask, unitTask]]\<rparr>"
  let ?r = "\<lparr>workspaceTasks = [devTask], sourceGroups = [''npm'' \<mapsto> ?g]\<rparr>"
  have run: "organizeTasks ?ts = Inr ?r"
    by (simp add: organize_eval)
  have g: "sourceGroups ?r ''npm'' = Some ?g" by simp
  have l: "subGroups ?g ''test'' = Some [lintTask, unitTask]" by simp
  note inst = organizeTasks_order_preserved [OF run]
  from inst have 1: "workspaceTasks ?r = filter isWorkspaceTask ?ts" by (rule conjunct1)
  from inst g have 2: "tasks ?g = filter (\<lambda>t. \<not> isWorkspaceTask t \<and> source t = Some ''npm'' \<and> extractTaskGroupName t = None) ?ts"
    by blast
  from inst g have 3: "subseq (tasks ?g) ?ts"
    by blast
  from inst g l have 4: "[lintTask, unitTask] = filter (\<lambda>t. \<not> isWorkspaceTask t \<and> source t = Some ''npm'' \<and>
                 extractTaskGroupName t = Some ''test'') ?ts"
    by blast
  from inst g l have 5: "subseq [lintTask, unitTask] ?ts"
    by blast
  from 1 have w1: "[devTask] = filter isWorkspaceTask ?ts" by simp
  from 2 have w2: "[compileTask, packTask] = filter (\<lambda>t. \<not> isWorkspaceTask t \<and> source t = Some ''npm'' \<and> extractTaskGroupName t = None) ?ts"
    by simp
  from 3 have w3: "subseq [compileTask, packTask] ?ts" by simp
  from run w1 w2 w3 4 5 show ?thesis by (intro conjI)
qed

text \<open>
  Source keys of a returning run. Whenever \<^verbatim>\<open>organizeTasks\<close> returns, the keys of
  \<^verbatim>\<open>sourceGroups\<close> are exactly the source values of the input tasks routed to the provider
  path, which are also their effective source keys \<open>providerSource\<close>: every such source has
  an entry, whatever its direct list holds, and there is no other key.
\<close>

lemma organizeTasks_source_keys:
  assumes "organizeTasks ts = Inr r"
  shows "dom (sourceGroups r) = {s. \<exists>t\<in>set ts. \<not> isWorkspaceTask t \<and> source t = Some s} \<and>
         dom (sourceGroups r) = providerSource ` {t \<in> set ts. \<not> isWorkspaceTask t}"
  using organizeTasks_source_dom [OF assms] organizeTasks_dom [OF assms] by simp

text \<open>
  The lemma at a snapshot whose only \<^verbatim>\<open>npm\<close> task falls into a subgroup: the entry
  \<^verbatim>\<open>npm\<close> exists with an empty direct list.
\<close>

lemma organizeTasks_source_keys_example:
  "organizeTasks [devTask, lintTask] =
     Inr \<lparr>workspaceTasks = [devTask],
          sourceGroups = [''npm'' \<mapsto> \<lparr>tasks = [], subGroups = [''test'' \<mapsto> [lintTask]]\<rparr>]\<rparr> \<and>
   dom [''npm'' \<mapsto> \<lparr>tasks = [], subGroups = [''test'' \<mapsto> [lintTask]]\<rparr>] =
     {s. \<exists>t\<in>set [devTask, lintTask]. \<not> isWorkspaceTask t \<and> source t = Some s} \<and>
   {s. \<exists>t\<in>set [devTask, lintTask]. \<not> isWorkspaceTask t \<and> source t = Some s} = {''npm''}"
proof -
  let ?r = "\<lparr>workspaceTasks = [devTask],
          sourceGroups = [''npm'' \<mapsto> \<lparr>tasks = [], subGroups = [''test'' \<mapsto> [lintTask]]\<rparr>]\<rparr>"
  have run: "organizeTasks [devTask, lintTask] = Inr ?r"
    by (simp add: organize_eval)
  from organizeTasks_source_keys [OF run]
  have keys: "dom (sourceGroups ?r) =
     {s. \<exists>t\<in>set [devTask, lintTask]. \<not> isWorkspaceTask t \<and> source t = Some s}"
    by (rule conjunct1)
  have "dom (sourceGroups ?r) = {''npm''}" by simp
  with keys have "{s. \<exists>t\<in>set [devTask, lintTask]. \<not> isWorkspaceTask t \<and> source t = Some s} = {''npm''}"
    by simp
  with run keys show ?thesis by simp
qed

text \<open>
  Claim C7 (source keys). The claim holds on every run that returns (lemma
  \<open>organizeTasks_source_keys\<close>), but not every run returns. In the snapshot of an \<^verbatim>\<open>npm\<close> task
  and a provider task of source \<^verbatim>\<open>valueOf\<close> the two distinct provider sources are \<^verbatim>\<open>npm\<close> and
  \<^verbatim>\<open>valueOf\<close>. The entry \<^verbatim>\<open>npm\<close> is created, but for \<^verbatim>\<open>valueOf\<close> the read
  \<^verbatim>\<open>sourceGroups[source]\<close> finds the inherited member \<^verbatim>\<open>Object.prototype.valueOf\<close>, which is
  truthy: no entry is created, \<^verbatim>\<open>sourceGroups[source].tasks.push(task)\<close> throws, and
  \<^verbatim>\<open>organizeTasks\<close> returns no \<^verbatim>\<open>sourceGroups\<close> at all. After the first task alone the key set
  is \<^verbatim>\<open>{npm}\<close>, which lacks the second source.
\<close>

theorem organizeTasks_source_keys_inherited:
  "organizeTasks [lintTask, valueOfTask] = Inl TypeError \<and>
   \<not> isWorkspaceTask valueOfTask \<and>
   organizeProviderTask valueOfTask
     [''npm'' \<mapsto> \<lparr>tasks = [], subGroups = [''test'' \<mapsto> [lintTask]]\<rparr>] = Inl TypeError \<and>
   organizeTasks [lintTask] =
     Inr \<lparr>workspaceTasks = [],
          sourceGroups = [''npm'' \<mapsto> \<lparr>tasks = [], subGroups = [''test'' \<mapsto> [lintTask]]\<rparr>]\<rparr>"
  by (simp add: organize_eval)

text \<open>
  Empty group strings in a returning run. A provider task whose group is
  the empty plain string has no group id and is in the direct list of its source, in no
  subgroup list, and no subgroup is keyed by the empty string; a provider task whose
  group is a structured value with the empty id resolves to \<^verbatim>\<open>build\<close> and is in the
  subgroup list \<^verbatim>\<open>build\<close> of its source.
\<close>

lemma organizeTasks_empty_group:
  assumes "organizeTasks ts = Inr r" and "t \<in> set ts" and "\<not> isWorkspaceTask t"
  shows "(group t = Some (PlainGroup []) \<longrightarrow>
            extractTaskGroupName t = None \<and>
            (\<exists>s g. source t = Some s \<and> sourceGroups r s = Some g \<and> t \<in> set (tasks g) \<and>
                   subGroups g [] = None \<and> (\<forall>k l. subGroups g k = Some l \<longrightarrow> t \<notin> set l))) \<and>
         (group t = Some (StructuredGroup (Some [])) \<longrightarrow>
            extractTaskGroupName t = Some ''build'' \<and>
            (\<exists>s g l. source t = Some s \<and> sourceGroups r s = Some g \<and>
                     subGroups g ''build'' = Some l \<and> t \<in> set l))"
proof -
  from organizeTasks_provider_bucket [OF assms] obtain g where
    g: "sourceGroups r (providerSource t) = Some g" and
    d0: "extractTaskGroupName t = None \<longrightarrow> t \<in> set (tasks g)" and
    s0: "\<forall>k. extractTaskGroupName t = Some k \<longrightarrow> (\<exists>l. subGroups g k = Some l \<and> t \<in> set l)"
    by auto
  note d = d0 [rule_format] and s = s0 [rule_format]
  have src: "source t = Some (providerSource t)" by (rule provider_source [OF assms(3)])
  show ?thesis
  proof (intro conjI impI)
    assume "group t = Some (PlainGroup [])"
    then show n: "extractTaskGroupName t = None" by (simp add: extractTaskGroupName_cases)
    have "\<forall>k l. subGroups g k = Some l \<longrightarrow> t \<notin> set l"
      using organizeTasks_direct_not_sub [OF assms(1) n g] by blast
    with src g d [OF n] organizeTasks_no_empty_key [OF assms(1) g]
    show "\<exists>s g. source t = Some s \<and> sourceGroups r s = Some g \<and> t \<in> set (tasks g) \<and>
                   subGroups g [] = None \<and> (\<forall>k l. subGroups g k = Some l \<longrightarrow> t \<notin> set l)"
      by blast
  next
    assume "group t = Some (StructuredGroup (Some []))"
    then show e: "extractTaskGroupName t = Some ''build''" by (simp add: extractTaskGroupName_cases)
    from s [OF e] obtain l where "subGroups g ''build'' = Some l" "t \<in> set l" by blast
    with src g
    show "\<exists>s g l. source t = Some s \<and> sourceGroups r s = Some g \<and>
                     subGroups g ''build'' = Some l \<and> t \<in> set l"
      by blast
  qed
qed

text \<open>
  The lemma at a snapshot of one task of each kind.
\<close>

lemma organizeTasks_empty_group_example:
  "organizeTasks [emptyGroupTask, emptyIdTask] =
     Inr \<lparr>workspaceTasks = [],
          sourceGroups = [''npm'' \<mapsto>
            \<lparr>tasks = [emptyGroupTask], subGroups = [''build'' \<mapsto> [emptyIdTask]]\<rparr>]\<rparr> \<and>
   (\<exists>s g. source emptyGroupTask = Some s \<and>
          [''npm'' \<mapsto> \<lparr>tasks = [emptyGroupTask], subGroups = [''build'' \<mapsto> [emptyIdTask]]\<rparr>] s = Some g \<and>
          extractTaskGroupName emptyGroupTask = None \<and>
          emptyGroupTask \<in> set (tasks g) \<and> subGroups g [] = None) \<and>
   (\<exists>s g l. source emptyIdTask = Some s \<and>
          [''npm'' \<mapsto> \<lparr>tasks = [emptyGroupTask], subGroups = [''build'' \<mapsto> [emptyIdTask]]\<rparr>] s = Some g \<and>
          extractTaskGroupName emptyIdTask = Some ''build'' \<and>
          subGroups g ''build'' = Some l \<and> emptyIdTask \<in> set l)"
proof -
  let ?ts = "[emptyGroupTask, emptyIdTask]"
  let ?sg = "[''npm'' \<mapsto> \<lparr>tasks = [emptyGroupTask], subGroups = [''build'' \<mapsto> [emptyIdTask]]\<rparr>]"
  let ?r = "\<lparr>workspaceTasks = [], sourceGroups = ?sg\<rparr>"
  have run: "organizeTasks ?ts = Inr ?r"
    by (simp add: organize_eval)
  have sg: "sourceGroups ?r = ?sg" by simp
  have m: "emptyGroupTask \<in> set ?ts" "emptyIdTask \<in> set ?ts" by simp_all
  have p: "\<not> isWorkspaceTask emptyGroupTask" "\<not> isWorkspaceTask emptyIdTask"
    by (simp_all add: isWorkspaceTask_def)
  have g1: "group emptyGroupTask = Some (PlainGroup [])" by simp
  have g2: "group emptyIdTask = Some (StructuredGroup (Some []))" by simp
  from organizeTasks_empty_group [OF run m(1) p(1)] g1
  have 1: "\<exists>s g. source emptyGroupTask = Some s \<and> ?sg s = Some g \<and>
          extractTaskGroupName emptyGroupTask = None \<and>
          emptyGroupTask \<in> set (tasks g) \<and> subGroups g [] = None"
    unfolding sg by blast
  from organizeTasks_empty_group [OF run m(2) p(2)] g2
  have 2: "\<exists>s g l. source emptyIdTask = Some s \<and> ?sg s = Some g \<and>
          extractTaskGroupName emptyIdTask = Some ''build'' \<and>
          subGroups g ''build'' = Some l \<and> emptyIdTask \<in> set l"
    unfolding sg by blast
  from run 1 2 show ?thesis by (intro conjI)
qed

text \<open>
  Claim C10 (empty group strings). The group id is resolved as the claim says: the empty
  plain string gives no group id, a structured value with the empty id gives \<^verbatim>\<open>build\<close>. The
  placement holds on every run that returns (lemma \<open>organizeTasks_empty_group\<close>), but not
  every run returns: for a provider task of source \<^verbatim>\<open>toString\<close> the read
  \<^verbatim>\<open>sourceGroups[source]\<close> finds the inherited member \<^verbatim>\<open>Object.prototype.toString\<close>, no group
  is created, and both \<^verbatim>\<open>sourceGroups[source].tasks.push(task)\<close> (group \<^verbatim>\<open>""\<close>) and
  \<^verbatim>\<open>sourceGroups[source].subGroups[taskGroupName]\<close> (id \<^verbatim>\<open>""\<close>) throw a TypeError. The task is
  then neither in the direct list of its source nor in the subgroup \<^verbatim>\<open>build\<close>.
\<close>

theorem organizeTasks_empty_group_inherited:
  "\<not> isWorkspaceTask toStringEmptyGroupTask \<and>
   extractTaskGroupName toStringEmptyGroupTask = None \<and>
   organizeTasks [toStringEmptyGroupTask] = Inl TypeError \<and>
   \<not> isWorkspaceTask toStringEmptyIdTask \<and>
   extractTaskGroupName toStringEmptyIdTask = Some ''build'' \<and>
   organizeTasks [toStringEmptyIdTask] = Inl TypeError"
  by (simp add: organize_eval)

section \<open>The claims about the status deriver\<close>

text \<open>
  Claim C2 (status derivation). The claim holds for every task whose name is not
  \<^verbatim>\<open>__proto__\<close> (lemmas \<open>createTaskStatuses_lookup\<close> and \<open>createTaskStatuses_safe\<close>). For
  a task named \<^verbatim>\<open>__proto__\<close> the assignment \<^verbatim>\<open>taskStatuses[task.name] = ...\<close> stores nothing,
  so the name is mapped to no status at all, although an execution refers to it.
\<close>

theorem createTaskStatuses_proto_unmapped:
  "createTaskStatuses [protoTask] [\<lparr>task = protoTask\<rparr>] ''__proto__'' = None"
  by (simp add: createTaskStatuses_def setProperty_def)

text \<open>
  Claim C8 (domain of the status map). The domain is the set of task names without
  \<^verbatim>\<open>__proto__\<close> (lemma \<open>createTaskStatuses_dom\<close>): for the single task named \<^verbatim>\<open>__proto__\<close> the
  returned map is empty, not a map with one entry.
\<close>

theorem createTaskStatuses_proto_dom:
  "dom (createTaskStatuses [protoTask] ([] :: unit TaskExecution list)) = {}"
  by (simp add: createTaskStatuses_def setProperty_def)

text \<open>
  Claim C9 (running detection). For three tasks named A, B, C and two executions that
  refer to A and to C, the code returns \<open>{A: yellow, B: grey, C: yellow}\<close>: C is referenced by
  an execution, so it is running, not idle.
\<close>

theorem createTaskStatuses_ABC:
  assumes "name a = ''A''" "name b = ''B''" "name c = ''C''"
    and "name (task e1) = ''A''" "name (task e2) = ''C''"
  shows "createTaskStatuses [a, b, c] [e1, e2] = [''A'' \<mapsto> yellow, ''B'' \<mapsto> grey, ''C'' \<mapsto> yellow]"
  using assms by (auto simp: fun_eq_iff createTaskStatuses_lookup)

text \<open>
  The theorem at three workspace tasks.
\<close>

theorem createTaskStatuses_ABC_witness:
  "createTaskStatuses
     [\<lparr>name = ''A'', source = None, group = None\<rparr>,
      \<lparr>name = ''B'', source = None, group = None\<rparr>,
      \<lparr>name = ''C'', source = None, group = None\<rparr>]
     [\<lparr>task = \<lparr>name = ''A'', source = None, group = None\<rparr>\<rparr>,
      \<lparr>task = \<lparr>name = ''C'', source = None, group = None\<rparr>\<rparr>]
   = [''A'' \<mapsto> yellow, ''B'' \<mapsto> grey, ''C'' \<mapsto> yellow]"
  by (rule createTaskStatuses_ABC) simp_all

text \<open>
  The map \<open>{A: running, B: idle, C: idle}\<close> is not what the code returns on that input.
\<close>

theorem createTaskStatuses_ABC_counterexample:
  "createTaskStatuses
     [\<lparr>name = ''A'', source = None, group = None\<rparr>,
      \<lparr>name = ''B'', source = None, group = None\<rparr>,
      \<lparr>name = ''C'', source = None, group = None\<rparr>]
     [\<lparr>task = \<lparr>name = ''A'', source = None, group = None\<rparr>\<rparr>,
      \<lparr>task = \<lparr>name = ''C'', source = None, group = None\<rparr>\<rparr>]
   \<noteq> [''A'' \<mapsto> yellow, ''B'' \<mapsto> grey, ''C'' \<mapsto> grey]"
proof
  assume eq: "createTaskStatuses
     [\<lparr>name = ''A'', source = None, group = None\<rparr>,
      \<lparr>name = ''B'', source = None, group = None\<rparr>,
      \<lparr>name = ''C'', source = None, group = None\<rparr>]
     [\<lparr>task = \<lparr>name = ''A'', source = None, group = None\<rparr>\<rparr>,
      \<lparr>task = \<lparr>name = ''C'', source = None, group = None\<rparr>\<rparr>]
   = [''A'' \<mapsto> yellow, ''B'' \<mapsto> grey, ''C'' \<mapsto> grey]"
  have "createTaskStatuses
     [\<lparr>name = ''A'', source = None, group = None\<rparr>,
      \<lparr>name = ''B'', source = None, group = None\<rparr>,
      \<lparr>name = ''C'', source = None, group = None\<rparr>]
     [\<lparr>task = \<lparr>name = ''A'', source = None, group = None\<rparr>\<rparr>,
      \<lparr>task = \<lparr>name = ''C'', source = None, group = None\<rparr>\<rparr>] ''C'' = Some yellow"
    by (simp add: createTaskStatuses_def setProperty_def isRunning_def)
  with eq show False by simp
qed

end
